theory Spec2Isabelle
  imports Complex_Main "HOL-Library.Word" "HOL-Library.Signed_Division" "HOL-Library.AList"
begin

unbundle bit_operations_syntax

section \<open>Strings and bytes\<close>

text \<open>
  A Go \<open>string\<close> is a sequence of bytes; it is modelled as \<open>string\<close> (a list of
  \<open>char\<close>, one per byte). A \<open>byte\<close> of a buffer is an 8-bit word.
\<close>

type_synonym byte = "8 word"

definition dquote :: char where
  "dquote = CHR 0x22"

definition squote :: char where
  "squote = CHR 0x27"

definition newline :: char where
  "newline = CHR 0x0A"

text \<open>A Go \<open>map[string]T\<close> is held as the list of its entries, one per key.\<close>

type_synonym 'v gomap = "(string \<times> 'v) list"

text \<open>\<open>strings.HasPrefix(s, prefix)\<close>.\<close>

fun HasPrefix :: "string \<Rightarrow> string \<Rightarrow> bool" where
  "HasPrefix s [] = True"
| "HasPrefix [] (p # ps) = False"
| "HasPrefix (c # cs) (p # ps) = (c = p \<and> HasPrefix cs ps)"

text \<open>\<open>strings.Contains(s, substr)\<close>: \<open>substr\<close> occurs at some offset of \<open>s\<close>.\<close>

fun Contains :: "string \<Rightarrow> string \<Rightarrow> bool" where
  "Contains [] substr = (substr = [])"
| "Contains (c # cs) substr = (HasPrefix (c # cs) substr \<or> Contains cs substr)"

text \<open>
  \<open>strings.ToUpper\<close> on one byte. The strings upper-cased in this program are
  hexadecimal digits and input keys; on ASCII bytes Go maps \<open>a\<close>..\<open>z\<close> to
  \<open>A\<close>..\<open>Z\<close> and leaves every other byte alone, which is what is written here.
  Letters outside ASCII, which Go would also map, are left as they are.
\<close>

definition toUpperChar :: "char \<Rightarrow> char" where
  "toUpperChar c =
     (case map_of (zip ''abcdefghijklmnopqrstuvwxyz'' ''ABCDEFGHIJKLMNOPQRSTUVWXYZ'') c of
        None \<Rightarrow> c
      | Some u \<Rightarrow> u)"

definition ToUpper :: "string \<Rightarrow> string" where
  "ToUpper s = map toUpperChar s"

text \<open>
  \<open>strings.ReplaceAll(s, old, new)\<close> for a one-byte \<open>old\<close> and a one-byte
  \<open>new\<close>, the only way the program calls it (\<open>"-"\<close> by \<open>"_"\<close>).
\<close>

definition ReplaceAll :: "string \<Rightarrow> char \<Rightarrow> char \<Rightarrow> string" where
  "ReplaceAll s old new = map (\<lambda>c. if c = old then new else c) s"

text \<open>\<open>strings.Join(elems, sep)\<close>.\<close>

fun Join :: "string list \<Rightarrow> string \<Rightarrow> string" where
  "Join [] sep = []"
| "Join [x] sep = x"
| "Join (x # y # ys) sep = x @ sep @ Join (y # ys) sep"

text \<open>
  \<open>hex.EncodeToString\<close>: two lower-case hexadecimal digits per byte, the high
  nibble first.
\<close>

definition hextable :: string where
  "hextable = ''0123456789abcdef''"

definition EncodeToString :: "byte list \<Rightarrow> string" where
  "EncodeToString bs =
     concat (map (\<lambda>b. [hextable ! unat (drop_bit 4 b), hextable ! unat (b AND 0x0F)]) bs)"

section \<open>Errors\<close>

text \<open>
  Every \<open>fmt.Errorf\<close> of the program is a constructor; the comment gives the
  message of the source. \<open>Panic\<close> is a run-time panic of Go (a slice bound out
  of range, a negative \<open>make\<close> size).
\<close>

datatype error =
    Usage                              \<comment> \<open>"usage: opensourcer ..."\<close>
  | NotFound                           \<comment> \<open>"software '%s' not found in catalog", "deployment '%s' not found"\<close>
  | InvalidDefinition                  \<comment> \<open>"invalid app.json for '%s'"\<close>
  | EngineUnavailable                  \<comment> \<open>"docker is required for local deployment: docker is not running or not installed"\<close>
  | MkdirFailed                        \<comment> \<open>"failed to create deployment directory: ..."\<close>
  | CopyFailed                         \<comment> \<open>"failed to copy catalog files: ..."\<close>
  | ComposeFileMissing                 \<comment> \<open>"docker-compose.yaml not found for '%s'"\<close>
  | EnvWriteFailed                     \<comment> \<open>"failed to write .env file: ..."\<close>
  | EngineOperationFailed string       \<comment> \<open>"docker compose failed: ...", "failed to stop/start/destroy containers", "failed to get logs"\<close>
  | NotImplemented                     \<comment> \<open>"AWS deployment not yet implemented. Use --target local"\<close>
  | UnknownTarget string               \<comment> \<open>"unknown target: %s"\<close>
  | Panic

section \<open>Secure token generator\<close>

text \<open>
  The secure random source (\<open>crypto/rand\<close>) is a supply of bytes and the number
  of bytes already handed out: \<open>rand_Read n\<close> returns the next \<open>n\<close> bytes and
  advances the position by \<open>n\<close>, so no byte is handed out twice. A failure of the
  source itself is outside this model.
\<close>

record RandReader =
  entropy :: "nat \<Rightarrow> byte"
  consumed :: nat

definition rand_Read :: "nat \<Rightarrow> RandReader \<Rightarrow> byte list \<times> RandReader" where
  "rand_Read n r =
     (map (entropy r) [consumed r ..< consumed r + n], r\<lparr>consumed := consumed r + n\<rparr>)"

text \<open>
  \<^verbatim>\<open>
  func generatePassword(length int) string {
      bytes := make([]byte, length/2+1)
      rand.Read(bytes)
      return strings.ToUpper(hex.EncodeToString(bytes)[:length])
  }
  \<close>
  Go's \<open>/\<close> on \<open>int\<close> truncates towards zero (\<open>sdiv\<close>). \<open>make\<close> panics on a
  negative size, and the slice expression panics when \<open>length\<close> is negative or
  larger than the encoded string. The result of \<open>rand.Read\<close> is dropped, as in the
  source. \<open>length/2+1\<close> does not overflow a 64-bit \<open>int\<close>; the limits of memory
  are not modelled.
\<close>

definition generatePassword :: "int \<Rightarrow> RandReader \<Rightarrow> (error + string) \<times> RandReader" where
  "generatePassword len r =
     (let n = len sdiv 2 + 1 in
      if n < 0 then (Inl Panic, r)
      else
        let (bytes, r') = rand_Read (nat n) r;
            encoded = EncodeToString bytes
        in if len < 0 \<or> int (length encoded) < len then (Inl Panic, r')
           else (Inr (ToUpper (take (nat len) encoded)), r'))"

section \<open>Port resolver\<close>

text \<open>
  \<^verbatim>\<open>
  portMap := map[string]int{ "2368": 2368, "3000": 3000, "3001": 3001, "5678": 5678,
      "8000": 8000, "8065": 8065, "8080": 8080, "8096": 8096, "80": 80 }
  for port, portNum := range portMap {
      if strings.Contains(composeContent, fmt.Sprintf("- \"%s:", port)) ||
         strings.Contains(composeContent, fmt.Sprintf("- '%s:", port)) {
          return portNum
      }
  }
  return 0
  \<close>
  \<open>portMap\<close> holds the entries of the map literal in the order they are written.
  The loop ranges over a Go map, whose iteration order the language leaves
  unspecified: the order of one run is the first argument of \<open>findExposedPort\<close>,
  some arrangement of the entries of \<open>portMap\<close>.
\<close>

definition portMap :: "(string \<times> int) list" where
  "portMap =
     [(''2368'', 2368), (''3000'', 3000), (''3001'', 3001), (''5678'', 5678),
      (''8000'', 8000), (''8065'', 8065), (''8080'', 8080), (''8096'', 8096),
      (''80'', 80)]"

definition portPattern :: "char \<Rightarrow> string \<Rightarrow> string" where
  "portPattern q port = ''- '' @ [q] @ port @ '':''"

fun findExposedPort :: "(string \<times> int) list \<Rightarrow> string \<Rightarrow> int" where
  "findExposedPort [] composeContent = 0"
| "findExposedPort ((port, portNum) # rest) composeContent =
     (if Contains composeContent (portPattern dquote port) \<or>
         Contains composeContent (portPattern squote port)
      then portNum
      else findExposedPort rest composeContent)"

section \<open>Data model\<close>

text \<open>The structs of \<open>types.go\<close>. \<open>time.Time\<close> is an instant, a number.\<close>

type_synonym Time = int

record InputConfig =
  Label :: string
  Placeholder :: string
  Required :: bool
  Type :: string
  Description :: string
  Default :: string

record ServiceInfo =
  Exposed :: bool
  Stateless :: bool
  Internal :: bool
  ManagedOption :: string

record CatalogDetail =
  Name :: string
  Summary :: string      \<comment> \<open>the field \<open>Description\<close> of \<open>CatalogDetail\<close>\<close>
  Website :: string
  Icon :: string
  Category :: string
  Tags :: "string list"
  DeclaredInputs :: "InputConfig gomap"   \<comment> \<open>the field \<open>Inputs\<close> of \<open>CatalogDetail\<close>\<close>
  Services :: "ServiceInfo gomap"

record LocalDeployment =
  ID :: string
  Software :: string
  Target :: string
  Status :: string
  Directory :: string
  Port :: int
  Inputs :: "string gomap"
  CreatedAt :: Time
  UpdatedAt :: Time

record DeploymentsFile =
  Deployments :: "LocalDeployment list"

section \<open>Credential and environment synthesizer\<close>

text \<open>
  \<open>keyMapping\<close> is only looked up, never ranged over. \<open>envKeyOf key\<close> is the
  name both loops of \<open>prepareEnvVars\<close> compute for a key:
  \<^verbatim>\<open>
  envKey := strings.ToUpper(strings.ReplaceAll(key, "-", "_"))
  if mapped, ok := keyMapping[key]; ok { envKey = mapped }
  \<close>
\<close>

definition keyMapping :: "string gomap" where
  "keyMapping =
     [(''domain'', ''DOMAIN''),
      (''timezone'', ''TIMEZONE''),
      (''basic_auth_user'', ''BASIC_AUTH_USER''),
      (''basic_auth_password'', ''BASIC_AUTH_PASSWORD''),
      (''admin_user'', ''ADMIN_USER''),
      (''admin_password'', ''ADMIN_PASSWORD''),
      (''admin_email'', ''ADMIN_EMAIL''),
      (''site_title'', ''SITE_TITLE'')]"

definition envKeyOf :: "string \<Rightarrow> string" where
  "envKeyOf key =
     (case map_of keyMapping key of
        Some mapped \<Rightarrow> mapped
      | None \<Rightarrow> ToUpper (ReplaceAll key CHR ''-'' CHR ''_''))"

text \<open>
  \<^verbatim>\<open>
  for key, value := range inputs {
      if value == "" { continue }
      ...
      envVars[envKey] = value
  }
  \<close>
  The argument is the map \<open>inputs\<close> in the order this run ranges over it.
\<close>

fun applyInputs :: "string gomap \<Rightarrow> string gomap \<Rightarrow> string gomap" where
  "applyInputs [] envVars = envVars"
| "applyInputs ((key, val) # rest) envVars =
     (if val = [] then applyInputs rest envVars
      else applyInputs rest (AList.update (envKeyOf key) val envVars))"

text \<open>
  \<^verbatim>\<open>
  for key, input := range detail.Inputs {
      ...
      if _, exists := envVars[envKey]; !exists && input.Type == "password" {
          envVars[envKey] = generatePassword(12)
      }
  }
  \<close>
\<close>

fun generateMissing ::
  "InputConfig gomap \<Rightarrow> string gomap \<Rightarrow> RandReader \<Rightarrow> (error + string gomap) \<times> RandReader" where
  "generateMissing [] envVars r = (Inr envVars, r)"
| "generateMissing ((key, input) # rest) envVars r =
     (if map_of envVars (envKeyOf key) = None \<and> Type input = ''password''
      then (case generatePassword 12 r of
              (Inl e, r') \<Rightarrow> (Inl e, r')
            | (Inr pwd, r') \<Rightarrow> generateMissing rest (AList.update (envKeyOf key) pwd envVars) r')
      else generateMissing rest envVars r)"

text \<open>
  \<open>prepareEnvVars\<close>: the three baseline secrets, the user's inputs, a generated
  secret for every declared password input that is still unset, and the default
  \<open>DOMAIN\<close>. A nil \<open>detail.Inputs\<close> is the empty list.
\<close>

definition prepareEnvVars ::
  "CatalogDetail \<Rightarrow> string gomap \<Rightarrow> RandReader \<Rightarrow> (error + string gomap) \<times> RandReader" where
  "prepareEnvVars detail inputs r =
     (case generatePassword 16 r of
        (Inl e, r1) \<Rightarrow> (Inl e, r1)
      | (Inr dbPwd, r1) \<Rightarrow>
     (case generatePassword 12 r1 of
        (Inl e, r2) \<Rightarrow> (Inl e, r2)
      | (Inr adminPwd, r2) \<Rightarrow>
     (case generatePassword 48 r2 of
        (Inl e, r3) \<Rightarrow> (Inl e, r3)
      | (Inr secretKey, r3) \<Rightarrow>
     (let envVars0 =
            AList.update ''SECRET_KEY'' secretKey
              (AList.update ''ADMIN_PASSWORD'' adminPwd
                (AList.update ''DB_PASSWORD'' dbPwd []));
          envVars1 = applyInputs inputs envVars0
      in case generateMissing (DeclaredInputs detail) envVars1 r3 of
           (Inl e, r4) \<Rightarrow> (Inl e, r4)
         | (Inr envVars2, r4) \<Rightarrow>
             (if map_of envVars2 ''DOMAIN'' = None
              then (Inr (AList.update ''DOMAIN'' ''localhost'' envVars2), r4)
              else (Inr envVars2, r4))))))"

text \<open>
  \<open>buildEnvFile\<close> and \<open>envVarsToSlice\<close> range over \<open>envVars\<close>; the lines come in
  the order of the list, one of the orders Go may take.
\<close>

definition envVarsToSlice :: "string gomap \<Rightarrow> string list" where
  "envVarsToSlice envVars = map (\<lambda>(key, val). key @ ''='' @ val) envVars"

definition buildEnvFile :: "string gomap \<Rightarrow> string" where
  "buildEnvFile envVars = Join (map (\<lambda>(key, val). key @ ''='' @ val) envVars) [newline]"

section \<open>The world outside the program\<close>

text \<open>
  The program is sequential and runs one command per process. What it does to the
  outside is the list of the calls it issues, in order: directory creation, file
  writes, recursive removal, and the external commands it runs (\<open>argv\<close>, the
  working directory, the variables added to the environment). What the outside answers
  during one command is an \<open>Env\<close>: whether each call fails, what each read returns,
  and the results of the library decoders and generators the program calls.
\<close>

datatype call =
    MkdirAll string
  | WriteFile string string
  | RemoveAll string
  | Run "string list" string "string list"

text \<open>
  The answer of \<open>os.ReadDir\<close>: the entries of a directory, each a file or a
  directory with the answer \<open>os.ReadDir\<close> gives on it in turn (\<open>None\<close> is an error).
\<close>

datatype dirent =
    FileEntry string
  | DirEntry string "dirent list option"

record Env =
  osArgs :: "string list"                              \<comment> \<open>\<open>os.Args\<close>\<close>
  param :: "string \<Rightarrow> string"                          \<comment> \<open>\<open>c.Param(key)\<close>\<close>
  homeDir :: string                                    \<comment> \<open>\<open>os.UserHomeDir()\<close>\<close>
  readFile :: "string \<Rightarrow> string option"                \<comment> \<open>\<open>os.ReadFile\<close>, \<open>None\<close> is an error\<close>
  readDir :: "string \<Rightarrow> dirent list option"            \<comment> \<open>\<open>os.ReadDir\<close>\<close>
  mkdirAllOk :: "string \<Rightarrow> bool"                       \<comment> \<open>\<open>os.MkdirAll\<close> returns nil\<close>
  writeFileOk :: "string \<Rightarrow> bool"                      \<comment> \<open>\<open>os.WriteFile\<close> returns nil\<close>
  runOk :: "string list \<Rightarrow> bool"                       \<comment> \<open>the external command exits with status 0\<close>
  runStderr :: "string list \<Rightarrow> string"                 \<comment> \<open>what it wrote to standard error\<close>
  runOutput :: "string list \<Rightarrow> string"                 \<comment> \<open>\<open>cmd.CombinedOutput()\<close>\<close>
  newUUID :: string                                    \<comment> \<open>\<open>uuid.New().String()\<close>\<close>
  now :: "nat \<Rightarrow> Time"                                 \<comment> \<open>the successive readings of \<open>time.Now()\<close>\<close>
  portOrder :: "(string \<times> int) list"                   \<comment> \<open>the order the run ranges over \<open>portMap\<close>\<close>
  unmarshalDetail :: "string \<Rightarrow> CatalogDetail option"   \<comment> \<open>\<open>json.Unmarshal\<close> into a \<open>CatalogDetail\<close>\<close>
  unmarshalFile :: "string \<Rightarrow> DeploymentsFile option"   \<comment> \<open>\<open>json.Unmarshal\<close> into a \<open>DeploymentsFile\<close>\<close>
  marshalFile :: "DeploymentsFile \<Rightarrow> string option"     \<comment> \<open>\<open>json.MarshalIndent\<close>\<close>

record World =
  calls :: "call list"
  rng :: RandReader

definition issue :: "call \<Rightarrow> World \<Rightarrow> World" where
  "issue c w = w\<lparr>calls := calls w @ [c]\<rparr>"

text \<open>
  \<open>filepath.Join\<close>: the non-empty elements, separated by \<open>/\<close>. The clean-up Go
  applies to the result (\<open>..\<close>, doubled separators) is not modelled.
\<close>

definition filepath_Join :: "string list \<Rightarrow> string" where
  "filepath_Join elems = Join (filter (\<lambda>e. e \<noteq> []) elems) ''/''"

section \<open>Deployment store\<close>

record Service =
  configPath :: string
  catalogPath :: string
  deployments :: "LocalDeployment list"

text \<open>
  \<^verbatim>\<open>
  func (s *Service) loadDeployments() {
      deployFile := filepath.Join(s.configPath, "deployments.json")
      data, err := os.ReadFile(deployFile)
      if err != nil { return }
      var file DeploymentsFile
      if err := json.Unmarshal(data, &file); err != nil { return }
      s.deployments = file.Deployments
  }
  \<close>
\<close>

definition loadDeployments :: "Env \<Rightarrow> Service \<Rightarrow> Service" where
  "loadDeployments env s =
     (let deployFile = filepath_Join [configPath s, ''deployments.json''] in
      case readFile env deployFile of
        None \<Rightarrow> s
      | Some data \<Rightarrow>
          (case unmarshalFile env data of
             None \<Rightarrow> s
           | Some file \<Rightarrow> s\<lparr>deployments := Deployments file\<rparr>))"

text \<open>
  \<open>NewService\<close>: the service of a fresh process. Its deployment list is nil (the
  empty list) until \<open>loadDeployments\<close> assigns it.
\<close>

definition NewService :: "Env \<Rightarrow> World \<Rightarrow> Service \<times> World" where
  "NewService env w =
     (let confPath = filepath_Join [homeDir env, ''.opensourcer''];
          catPath = filepath_Join [confPath, ''catalog''];
          w' = issue (MkdirAll confPath) w;
          s = \<lparr>configPath = confPath, catalogPath = catPath, deployments = []\<rparr>
      in (loadDeployments env s, w'))"

text \<open>
  \<^verbatim>\<open>
  func (s *Service) saveDeployments() {
      file := DeploymentsFile{Deployments: s.deployments}
      data, _ := json.MarshalIndent(file, "", "  ")
      deployFile := filepath.Join(s.configPath, "deployments.json")
      _ = os.WriteFile(deployFile, data, 0644)
  }
  \<close>
  Both errors are dropped: no data (nil) is written when the encoder fails.
\<close>

definition saveDeployments :: "Env \<Rightarrow> Service \<Rightarrow> World \<Rightarrow> World" where
  "saveDeployments env s w =
     (let file = \<lparr>Deployments = deployments s\<rparr>;
          data = (case marshalFile env file of Some d \<Rightarrow> d | None \<Rightarrow> []);
          deployFile = filepath_Join [configPath s, ''deployments.json'']
      in issue (WriteFile deployFile data) w)"

definition addDeployment :: "Env \<Rightarrow> LocalDeployment \<Rightarrow> Service \<Rightarrow> World \<Rightarrow> Service \<times> World" where
  "addDeployment env d s w =
     (let s' = s\<lparr>deployments := deployments s @ [d]\<rparr>
      in (s', saveDeployments env s' w))"

text \<open>
  \<open>findDeployment\<close> returns a pointer to the first record of the slug, or nil.
  The callers only read fields that no later step of the command changes, so the
  record itself is returned.
\<close>

fun findIn :: "string \<Rightarrow> LocalDeployment list \<Rightarrow> LocalDeployment option" where
  "findIn software [] = None"
| "findIn software (d # ds) = (if Software d = software then Some d else findIn software ds)"

definition findDeployment :: "Service \<Rightarrow> string \<Rightarrow> LocalDeployment option" where
  "findDeployment s software = findIn software (deployments s)"

text \<open>
  The loop \<open>for i := range s.deployments { if s.deployments[i].ID == id { ... return } }\<close>
  of \<open>updateDeploymentStatus\<close> and \<open>removeDeployment\<close>: the first index whose
  record has the identifier, counted from \<open>i\<close>.
\<close>

fun indexOfID :: "string \<Rightarrow> nat \<Rightarrow> LocalDeployment list \<Rightarrow> nat option" where
  "indexOfID ident i [] = None"
| "indexOfID ident i (d # ds) = (if ID d = ident then Some i else indexOfID ident (Suc i) ds)"

text \<open>
  \<^verbatim>\<open>
  s.deployments[i].Status = status
  s.deployments[i].UpdatedAt = time.Now()
  s.saveDeployments()
  return
  \<close>
\<close>

definition updateDeploymentStatus ::
  "Env \<Rightarrow> string \<Rightarrow> string \<Rightarrow> Service \<Rightarrow> World \<Rightarrow> Service \<times> World" where
  "updateDeploymentStatus env ident status s w =
     (case indexOfID ident 0 (deployments s) of
        None \<Rightarrow> (s, w)
      | Some i \<Rightarrow>
          (let ds = deployments s;
               s' = s\<lparr>deployments := ds[i := (ds ! i)\<lparr>Status := status, UpdatedAt := now env 0\<rparr>]\<rparr>
           in (s', saveDeployments env s' w)))"

text \<open>
  \<^verbatim>\<open>
  s.deployments = append(s.deployments[:i], s.deployments[i+1:]...)
  s.saveDeployments()
  return
  \<close>
\<close>

definition removeDeployment :: "Env \<Rightarrow> string \<Rightarrow> Service \<Rightarrow> World \<Rightarrow> Service \<times> World" where
  "removeDeployment env ident s w =
     (case indexOfID ident 0 (deployments s) of
        None \<Rightarrow> (s, w)
      | Some i \<Rightarrow>
          (let ds = deployments s;
               s' = s\<lparr>deployments := take i ds @ drop (Suc i) ds\<rparr>
           in (s', saveDeployments env s' w)))"

section \<open>Lifecycle orchestrator\<close>

text \<open>
  What a command hands back on success. The text rendered for the user is not
  modelled, except the log output, which is returned as captured.
\<close>

datatype reply = Deployed | Stopped | Started | Destroyed | LogText string

definition checkDockerAvailable :: "Env \<Rightarrow> World \<Rightarrow> bool \<times> World" where
  "checkDockerAvailable env w =
     (let argv = [''docker'', ''info'']
      in (runOk env argv, issue (Run argv [] []) w))"

text \<open>
  \<open>copyDir\<close>: the first argument after the environment is the answer of
  \<open>os.ReadDir(src)\<close>. The result is \<open>True\<close> when the source returns nil.
\<close>

fun copyDir :: "Env \<Rightarrow> dirent list option \<Rightarrow> string \<Rightarrow> string \<Rightarrow> World \<Rightarrow> bool \<times> World"
  and copyEntries :: "Env \<Rightarrow> dirent list \<Rightarrow> string \<Rightarrow> string \<Rightarrow> World \<Rightarrow> bool \<times> World"
  and copyEntry :: "Env \<Rightarrow> dirent \<Rightarrow> string \<Rightarrow> string \<Rightarrow> World \<Rightarrow> bool \<times> World" where
  "copyDir env None src dst w = (False, w)"
| "copyDir env (Some entries) src dst w = copyEntries env entries src dst w"
| "copyEntries env [] src dst w = (True, w)"
| "copyEntries env (entry # rest) src dst w =
     (let (ok, w') = copyEntry env entry src dst w
      in if ok then copyEntries env rest src dst w' else (False, w'))"
| "copyEntry env (DirEntry name sub) src dst w =
     (let srcPath = filepath_Join [src, name];
          dstPath = filepath_Join [dst, name];
          w' = issue (MkdirAll dstPath) w
      in if mkdirAllOk env dstPath then copyDir env sub srcPath dstPath w' else (False, w'))"
| "copyEntry env (FileEntry name) src dst w =
     (let srcPath = filepath_Join [src, name];
          dstPath = filepath_Join [dst, name]
      in case readFile env srcPath of
           None \<Rightarrow> (False, w)
         | Some data \<Rightarrow> (writeFileOk env dstPath, issue (WriteFile dstPath data) w))"

text \<open>
  \<open>deployLocal\<close>, step by step as in the source: the probe, the deployment
  directory, the copy of the catalog files, the read of the composition file, the
  environment, the \<open>.env\<close> file, the port, \<open>docker compose up -d\<close>, and the record.
\<close>

definition deployLocal ::
  "Env \<Rightarrow> string \<Rightarrow> CatalogDetail \<Rightarrow> string gomap \<Rightarrow> Service \<Rightarrow> World
     \<Rightarrow> (error + reply) \<times> Service \<times> World" where
  "deployLocal env software detail inputs s w =
     (let (available, w1) = checkDockerAvailable env w in
      if \<not> available then (Inl EngineUnavailable, s, w1)
      else
      let deployDir = filepath_Join [configPath s, ''deployments'', software];
          w2 = issue (MkdirAll deployDir) w1 in
      if \<not> mkdirAllOk env deployDir then (Inl MkdirFailed, s, w2)
      else
      let catalogDir = filepath_Join [catalogPath s, software];
          (copied, w3) = copyDir env (readDir env catalogDir) catalogDir deployDir w2 in
      if \<not> copied then (Inl CopyFailed, s, w3)
      else
      let composePath = filepath_Join [deployDir, ''docker-compose.yaml''] in
      case readFile env composePath of
        None \<Rightarrow> (Inl ComposeFileMissing, s, w3)
      | Some composeContent \<Rightarrow>
          (case prepareEnvVars detail inputs (rng w3) of
             (Inl e, r) \<Rightarrow> (Inl e, s, w3\<lparr>rng := r\<rparr>)
           | (Inr envVars, r) \<Rightarrow>
               (let envContent = buildEnvFile envVars;
                    envPath = filepath_Join [deployDir, ''.env''];
                    w4 = issue (WriteFile envPath envContent) (w3\<lparr>rng := r\<rparr>) in
                if \<not> writeFileOk env envPath then (Inl EnvWriteFailed, s, w4)
                else
                let port = findExposedPort (portOrder env) composeContent;
                    argv = [''docker'', ''compose'', ''-f'', composePath, ''up'', ''-d''];
                    w5 = issue (Run argv deployDir (envVarsToSlice envVars)) w4 in
                if \<not> runOk env argv then (Inl (EngineOperationFailed (runStderr env argv)), s, w5)
                else
                let deployment =
                      \<lparr>ID = newUUID env, Software = software, Target = ''local'',
                       Status = ''running'', Directory = deployDir, Port = port,
                       Inputs = inputs, CreatedAt = now env 0, UpdatedAt = now env 1\<rparr>;
                    (s', w6) = addDeployment env deployment s w5
                in (Inr Deployed, s', w6))))"

definition composeArgv :: "LocalDeployment \<Rightarrow> string list \<Rightarrow> string list" where
  "composeArgv deployment rest =
     [''docker'', ''compose'', ''-f'',
      filepath_Join [Directory deployment, ''docker-compose.yaml'']] @ rest"

definition getDockerLogs ::
  "Env \<Rightarrow> LocalDeployment \<Rightarrow> Service \<Rightarrow> World \<Rightarrow> (error + reply) \<times> Service \<times> World" where
  "getDockerLogs env deployment s w =
     (let argv = composeArgv deployment [''logs'', ''--tail'', ''100''];
          w' = issue (Run argv (Directory deployment) []) w
      in if \<not> runOk env argv then (Inl (EngineOperationFailed ''failed to get logs''), s, w')
         else (Inr (LogText (runOutput env argv)), s, w'))"

definition stopDocker ::
  "Env \<Rightarrow> LocalDeployment \<Rightarrow> Service \<Rightarrow> World \<Rightarrow> (error + reply) \<times> Service \<times> World" where
  "stopDocker env deployment s w =
     (let argv = composeArgv deployment [''stop''];
          w' = issue (Run argv (Directory deployment) []) w
      in if \<not> runOk env argv
         then (Inl (EngineOperationFailed ''failed to stop containers''), s, w')
         else (let (s', w'') = updateDeploymentStatus env (ID deployment) ''stopped'' s w'
               in (Inr Stopped, s', w'')))"

definition startDocker ::
  "Env \<Rightarrow> LocalDeployment \<Rightarrow> Service \<Rightarrow> World \<Rightarrow> (error + reply) \<times> Service \<times> World" where
  "startDocker env deployment s w =
     (let argv = composeArgv deployment [''start''];
          w' = issue (Run argv (Directory deployment) []) w
      in if \<not> runOk env argv
         then (Inl (EngineOperationFailed ''failed to start containers''), s, w')
         else (let (s', w'') = updateDeploymentStatus env (ID deployment) ''running'' s w'
               in (Inr Started, s', w'')))"

text \<open>
  \<^verbatim>\<open>
  cmd := exec.Command("docker", "compose", "-f", composePath, "down", "-v")
  cmd.Dir = deployment.Directory
  if err := cmd.Run(); err != nil {
      return nil, fmt.Errorf("failed to destroy containers: %w", err)
  }
  _ = os.RemoveAll(deployment.Directory)
  return nil, nil
  \<close>
\<close>

definition destroyDocker :: "Env \<Rightarrow> LocalDeployment \<Rightarrow> World \<Rightarrow> error option \<times> World" where
  "destroyDocker env deployment w =
     (let argv = composeArgv deployment [''down'', ''-v''];
          w' = issue (Run argv (Directory deployment) []) w
      in if \<not> runOk env argv
         then (Some (EngineOperationFailed ''failed to destroy containers''), w')
         else (None, issue (RemoveAll (Directory deployment)) w'))"

text \<open>\<open>getArg\<close>: the first positional argument after the subcommand.\<close>

definition getArg :: "Env \<Rightarrow> string" where
  "getArg env =
     (if length (osArgs env) \<ge> 3 \<and> \<not> HasPrefix (osArgs env ! 2) ''-''
      then osArgs env ! 2 else [])"

definition getCatalogDetail :: "Env \<Rightarrow> Service \<Rightarrow> string \<Rightarrow> error + CatalogDetail" where
  "getCatalogDetail env s software =
     (let appJSONPath = filepath_Join [catalogPath s, software, ''app.json''] in
      case readFile env appJSONPath of
        None \<Rightarrow> Inl NotFound
      | Some data \<Rightarrow>
          (case unmarshalDetail env data of
             None \<Rightarrow> Inl InvalidDefinition
           | Some detail \<Rightarrow> Inr detail))"

definition Deploy :: "Env \<Rightarrow> Service \<Rightarrow> World \<Rightarrow> (error + reply) \<times> Service \<times> World" where
  "Deploy env s w =
     (let software = getArg env in
      if software = [] then (Inl Usage, s, w)
      else case getCatalogDetail env s software of
        Inl e \<Rightarrow> (Inl e, s, w)
      | Inr detail \<Rightarrow>
          (let inputs = map (\<lambda>(key, input). (key, param env key))
                          (filter (\<lambda>(key, input). param env key \<noteq> []) (DeclaredInputs detail));
               target = (if param env ''target'' = [] then ''local'' else param env ''target'')
           in if target = ''local'' then deployLocal env software detail inputs s w
              else if target = ''aws'' then (Inl NotImplemented, s, w)
              else (Inl (UnknownTarget target), s, w)))"

definition Logs :: "Env \<Rightarrow> Service \<Rightarrow> World \<Rightarrow> (error + reply) \<times> Service \<times> World" where
  "Logs env s w =
     (let software = getArg env in
      if software = [] then (Inl Usage, s, w)
      else case findDeployment s software of
        None \<Rightarrow> (Inl NotFound, s, w)
      | Some deployment \<Rightarrow> getDockerLogs env deployment s w)"

definition Stop :: "Env \<Rightarrow> Service \<Rightarrow> World \<Rightarrow> (error + reply) \<times> Service \<times> World" where
  "Stop env s w =
     (let software = getArg env in
      if software = [] then (Inl Usage, s, w)
      else case findDeployment s software of
        None \<Rightarrow> (Inl NotFound, s, w)
      | Some deployment \<Rightarrow> stopDocker env deployment s w)"

definition Start :: "Env \<Rightarrow> Service \<Rightarrow> World \<Rightarrow> (error + reply) \<times> Service \<times> World" where
  "Start env s w =
     (let software = getArg env in
      if software = [] then (Inl Usage, s, w)
      else case findDeployment s software of
        None \<Rightarrow> (Inl NotFound, s, w)
      | Some deployment \<Rightarrow> startDocker env deployment s w)"

text \<open>
  \<^verbatim>\<open>
  deployment := s.findDeployment(software)
  if deployment == nil { return nil, fmt.Errorf("deployment '%s' not found", software) }
  if _, err := s.destroyDocker(deployment); err != nil { return nil, err }
  s.removeDeployment(deployment.ID)
  \<close>
\<close>

definition Destroy :: "Env \<Rightarrow> Service \<Rightarrow> World \<Rightarrow> (error + reply) \<times> Service \<times> World" where
  "Destroy env s w =
     (let software = getArg env in
      if software = [] then (Inl Usage, s, w)
      else case findDeployment s software of
        None \<Rightarrow> (Inl NotFound, s, w)
      | Some deployment \<Rightarrow>
          (case destroyDocker env deployment w of
             (Some e, w') \<Rightarrow> (Inl e, s, w')
           | (None, w') \<Rightarrow>
               (let (s', w'') = removeDeployment env (ID deployment) s w'
                in (Inr Destroyed, s', w''))))"

text \<open>
  A sequence of lifecycle commands, each with the answers of the outside during it.
  Each command sees the store the one before it left.
\<close>

datatype command = DeployCmd | StopCmd | StartCmd | DestroyCmd | LogsCmd

fun exec :: "command \<Rightarrow> Env \<Rightarrow> Service \<Rightarrow> World \<Rightarrow> (error + reply) \<times> Service \<times> World" where
  "exec DeployCmd env s w = Deploy env s w"
| "exec StopCmd env s w = Stop env s w"
| "exec StartCmd env s w = Start env s w"
| "exec DestroyCmd env s w = Destroy env s w"
| "exec LogsCmd env s w = Logs env s w"

fun run :: "(command \<times> Env) list \<Rightarrow> Service \<Rightarrow> World \<Rightarrow> Service \<times> World" where
  "run [] s w = (s, w)"
| "run ((cmd, env) # rest) s w = (case exec cmd env s w of (res, s', w') \<Rightarrow> run rest s' w')"

text \<open>No deploy of the sequence is for a slug that has a record when it is issued.\<close>

fun noRedeploy :: "(command \<times> Env) list \<Rightarrow> Service \<Rightarrow> World \<Rightarrow> bool" where
  "noRedeploy [] s w = True"
| "noRedeploy ((cmd, env) # rest) s w =
     ((cmd = DeployCmd \<longrightarrow> findDeployment s (getArg env) = None) \<and>
      (case exec cmd env s w of (res, s', w') \<Rightarrow> noRedeploy rest s' w'))"

section \<open>Auxiliary notions and sample inputs\<close>

text \<open>Two random sources: one that only yields zero bytes, one that yields varying bytes.\<close>

definition zeroReader :: RandReader where
  "zeroReader = \<lparr>entropy = (\<lambda>i. 0), consumed = 0\<rparr>"

definition countingReader :: RandReader where
  "countingReader = \<lparr>entropy = (\<lambda>i. of_nat (i * 37 + 171)), consumed = 0\<rparr>"

text \<open>Every value of an environment set is a non-empty string.\<close>

definition nonEmptyVals :: "string gomap \<Rightarrow> bool" where
  "nonEmptyVals envVars = (\<forall>(k, v) \<in> set envVars. v \<noteq> [])"

text \<open>
  Catalog definitions and user inputs: a definition without inputs, one with a text
  input and two password inputs, the inputs a user gives for it, and a definition
  with two inputs whose keys differ only in \<open>-\<close> against \<open>_\<close>, the user giving both.
\<close>

definition collidingInputs :: "string gomap" where
  "collidingInputs = [(''admin-password'', ''alpha''), (''admin_password'', ''beta'')]"

definition bareDetail :: CatalogDetail where
  "bareDetail =
     \<lparr>Name = ''App'', Summary = [], Website = [], Icon = [], Category = [], Tags = [],
      DeclaredInputs = [], Services = []\<rparr>"

definition passwordInput :: InputConfig where
  "passwordInput =
     \<lparr>Label = ''Secret'', Placeholder = [], Required = True, Type = ''password'',
      Description = [], Default = []\<rparr>"

definition textInput :: InputConfig where
  "textInput =
     \<lparr>Label = ''Text'', Placeholder = [], Required = False, Type = ''text'',
      Description = [], Default = []\<rparr>"

definition sampleDetail :: CatalogDetail where
  "sampleDetail =
     bareDetail\<lparr>DeclaredInputs :=
       [(''domain'', textInput), (''api-key'', passwordInput), (''admin_password'', passwordInput)]\<rparr>"

definition collidingDetail :: CatalogDetail where
  "collidingDetail =
     bareDetail\<lparr>DeclaredInputs :=
       [(''admin-password'', passwordInput), (''admin_password'', passwordInput)]\<rparr>"

definition sampleInputs :: "string gomap" where
  "sampleInputs = [(''domain'', ''example.org''), (''admin_password'', ''hunter2'')]"

text \<open>One of the two patterns of a table entry occurs in the composition text.\<close>

definition matchesPort :: "string \<Rightarrow> string \<times> int \<Rightarrow> bool" where
  "matchesPort composeContent entry =
     (Contains composeContent (portPattern dquote (fst entry)) \<or>
      Contains composeContent (portPattern squote (fst entry)))"

text \<open>A composition file that maps both port 80 and port 8080.\<close>

definition twoPortsCompose :: string where
  "twoPortsCompose =
     ''services:'' @ [newline] @
     ''  web:'' @ [newline] @
     ''    ports:'' @ [newline] @
     ''      - '' @ [dquote] @ ''80:80'' @ [dquote, newline] @
     ''      - '' @ [dquote] @ ''8080:8080'' @ [dquote, newline]"

text \<open>The composition file of \<open>ghost\<close>: one mapping, of host port 2368.\<close>

definition ghostCompose :: string where
  "ghostCompose =
     ''    ports:'' @ [newline] @
     ''      - '' @ [dquote] @ ''2368:2368'' @ [dquote, newline]"

text \<open>
  A store without records, a store with one record, a world in which nothing has been
  done yet, and an outside in which every call succeeds: the command line is
  \<open>opensourcer deploy ghost\<close>, every file read yields the composition file of \<open>ghost\<close>, and
  the state file does not decode.
\<close>

definition sampleDeployment :: LocalDeployment where
  "sampleDeployment =
     \<lparr>ID = ''3b241101-e2bb-4255-8caf-4136c566a962'', Software = ''ghost'', Target = ''local'',
      Status = ''running'', Directory = ''/home/u/.opensourcer/deployments/ghost'',
      Port = 2368, Inputs = [], CreatedAt = 1700000000, UpdatedAt = 1700000000\<rparr>"

definition emptyService :: Service where
  "emptyService =
     \<lparr>configPath = ''/home/u/.opensourcer'', catalogPath = ''/home/u/.opensourcer/catalog'',
      deployments = []\<rparr>"

definition sampleService :: Service where
  "sampleService = emptyService\<lparr>deployments := [sampleDeployment]\<rparr>"

definition freshWorld :: World where
  "freshWorld = \<lparr>calls = [], rng = countingReader\<rparr>"

definition sampleEnv :: Env where
  "sampleEnv =
     \<lparr>osArgs = [''opensourcer'', ''deploy'', ''ghost''],
      param = (\<lambda>key. []),
      homeDir = ''/home/u'',
      readFile = (\<lambda>path. Some ghostCompose),
      readDir = (\<lambda>path. Some [FileEntry ''app.json'', FileEntry ''docker-compose.yaml'']),
      mkdirAllOk = (\<lambda>path. True),
      writeFileOk = (\<lambda>path. True),
      runOk = (\<lambda>argv. True),
      runStderr = (\<lambda>argv. []),
      runOutput = (\<lambda>argv. []),
      newUUID = ''3b241101-e2bb-4255-8caf-4136c566a962'',
      now = (\<lambda>i. 1700000000 + int i),
      portOrder = portMap,
      unmarshalDetail = (\<lambda>data. Some sampleDetail),
      unmarshalFile = (\<lambda>data. None),
      marshalFile = (\<lambda>file. Some [])\<rparr>"

text \<open>The same outside with the container engine failing every command.\<close>

definition engineDownEnv :: Env where
  "engineDownEnv = sampleEnv\<lparr>runOk := (\<lambda>argv. False)\<rparr>"

definition missingFileEnv :: Env where
  "missingFileEnv = sampleEnv\<lparr>readFile := (\<lambda>path. None)\<rparr>"

text \<open>The path of the state file of a fresh service.\<close>

definition stateFileOf :: "Env \<Rightarrow> string" where
  "stateFileOf env =
     filepath_Join [filepath_Join [homeDir env, ''.opensourcer''], ''deployments.json'']"

text \<open>
  A second deploy of \<open>ghost\<close> an hour later, the commands \<open>stop\<close>, \<open>start\<close>
  and \<open>destroy\<close> on it, and a session: deploy, stop, start, destroy.
\<close>

definition redeployEnv :: Env where
  "redeployEnv =
     sampleEnv\<lparr>newUUID := ''9f1c2d3e-0a4b-4c5d-8e6f-7a8b9c0d1e2f'',
               now := (\<lambda>i. 1700003600 + int i)\<rparr>"

definition stopEnv :: Env where
  "stopEnv = sampleEnv\<lparr>osArgs := [''opensourcer'', ''stop'', ''ghost'']\<rparr>"

definition startEnv :: Env where
  "startEnv = sampleEnv\<lparr>osArgs := [''opensourcer'', ''start'', ''ghost'']\<rparr>"

definition destroyEnv :: Env where
  "destroyEnv = sampleEnv\<lparr>osArgs := [''opensourcer'', ''destroy'', ''ghost'']\<rparr>"

definition sampleSession :: "(command \<times> Env) list" where
  "sampleSession =
     [(DeployCmd, sampleEnv), (StopCmd, stopEnv), (StartCmd, startEnv),
      (DestroyCmd, destroyEnv)]"

text \<open>The number of records the store holds for a slug.\<close>

definition slugCount :: "string \<Rightarrow> Service \<Rightarrow> nat" where
  "slugCount software s = length (filter (\<lambda>d. Software d = software) (deployments s))"

section \<open>Properties of the secure token generator\<close>

lemma hi_nibble_bound: "unat (drop_bit 4 (b :: byte)) < 16"
proof -
  have "unat (drop_bit 4 b) = drop_bit 4 (unat b)"
    by (rule unat_drop_bit_eq)
  also have "\<dots> = unat b div 2 ^ 4"
    by (rule drop_bit_eq_div)
  finally have eq: "unat (drop_bit 4 b) = unat b div 2 ^ 4" .
  have "unat b < 2 ^ 8"
    using unsigned_less [of b] by simp
  with eq show ?thesis by simp
qed

lemma lo_nibble_bound: "unat ((b :: byte) AND 0x0F) < 16"
proof -
  have "b AND 0x0F \<le> 0x0F"
    by (rule word_and_le1)
  then have "unat (b AND 0x0F) \<le> unat (0x0F :: byte)"
    by (simp add: word_le_nat_alt)
  then show ?thesis by simp
qed

lemma upper_hex_digit:
  assumes "i < 16"
  shows "toUpperChar (hextable ! i) \<in> set ''0123456789ABCDEF''"
proof -
  have all: "\<forall>i \<in> set [0..<16]. toUpperChar (hextable ! i) \<in> set ''0123456789ABCDEF''"
    by code_simp
  from assms have "i \<in> set [0..<16]" by simp
  with all show ?thesis by blast
qed

lemma length_EncodeToString: "length (EncodeToString bs) = 2 * length bs"
  by (induction bs) (simp_all add: EncodeToString_def)

lemma upper_EncodeToString:
  "set (ToUpper (EncodeToString bs)) \<subseteq> set ''0123456789ABCDEF''"
  unfolding ToUpper_def EncodeToString_def
  using upper_hex_digit hi_nibble_bound lo_nibble_bound
  by (induction bs) auto

lemma ToUpper_take: "ToUpper (take n s) = take n (ToUpper s)"
  by (simp add: ToUpper_def take_map)

lemma generatePassword_nonneg:
  assumes "0 \<le> L"
  shows "generatePassword L r =
           (Inr (ToUpper (take (nat L)
                   (EncodeToString (map (entropy r) [consumed r ..< consumed r + nat (L div 2 + 1)])))),
            r\<lparr>consumed := consumed r + nat (L div 2 + 1)\<rparr>)"
proof -
  have sd: "L sdiv 2 = L div 2"
    using assms by (simp add: signed_divide_int_def sgn_if)
  have n: "\<not> L div 2 + 1 < 0" using assms by simp
  have len: "\<not> int (2 * nat (L div 2 + 1)) < L" using assms by simp
  show ?thesis
    using assms n len
    by (simp add: generatePassword_def sd rand_Read_def Let_def length_EncodeToString)
qed



text \<open>
  C4 (as amended). For every requested length \<open>L \<ge> 1\<close>, \<open>generatePassword\<close> returns
  a string of exactly \<open>L\<close> characters, each an upper-case hexadecimal digit; it takes
  exactly \<open>\<lfloor>L/2\<rfloor> + 1\<close> bytes from the random source (the buffer is
  \<open>length/2+1\<close> bytes with Go's integer division), hex-encodes them and keeps the
  first \<open>L\<close> characters.
\<close>

theorem generatePassword_token:
  assumes "1 \<le> L"
  shows "let n = nat (L div 2 + 1);
             tok = ToUpper (take (nat L)
                     (EncodeToString (map (entropy r) [consumed r ..< consumed r + n])))
         in generatePassword L r = (Inr tok, r\<lparr>consumed := consumed r + n\<rparr>) \<and>
            length tok = nat L \<and>
            set tok \<subseteq> set ''0123456789ABCDEF''"
proof -
  have nn: "0 \<le> L" using assms by simp
  have short: "nat L \<le> 2 * nat (L div 2 + 1)" using assms by simp
  have "set (ToUpper (take (nat L) (EncodeToString bs))) \<subseteq> set ''0123456789ABCDEF''" for bs
    unfolding ToUpper_take using upper_EncodeToString [of bs] set_take_subset [of "nat L" "ToUpper (EncodeToString bs)"]
    by blast
  then show ?thesis
    using short
    by (simp add: generatePassword_nonneg [OF nn] Let_def ToUpper_def length_EncodeToString)
qed


text \<open>The theorem at \<open>L = 12\<close>, the length of the admin password: seven bytes are taken.\<close>

theorem generatePassword_token_witness:
  "(1::int) \<le> 12 \<and>
   generatePassword 12 countingReader = (Inr ''ABD0F51A3F64'', countingReader\<lparr>consumed := 7\<rparr>)"
proof -
  have h: "(1::int) \<le> 12" by simp
  have tok: "ToUpper (take 12 (EncodeToString (map (entropy countingReader) [0 ..< 7]))) = ''ABD0F51A3F64''"
    by code_simp
  show ?thesis
    using generatePassword_token [OF h, of countingReader] tok
    by (simp add: Let_def countingReader_def)
qed


text \<open>
  C4 as stated fails at \<open>L = 1\<close>: the claim has \<open>\<lceil>1/2\<rceil> + 1 = 2\<close> bytes consumed,
  the code takes one.
\<close>

theorem generatePassword_bytes_counterexample:
  "consumed (snd (generatePassword 1 zeroReader)) - consumed zeroReader = 1 \<and>
   nat (\<lceil>(1::real) / 2\<rceil> + 1) = 2"
proof -
  have "\<lceil>(1::real) / 2\<rceil> = 1" by (simp add: ceiling_eq_iff)
  then show ?thesis
    by (simp add: generatePassword_nonneg zeroReader_def)
qed

section \<open>Properties of the environment synthesizer\<close>

lemma map_of_nonEmptyVals:
  "nonEmptyVals envVars \<Longrightarrow> map_of envVars k = Some v \<Longrightarrow> v \<noteq> []"
  by (auto simp: nonEmptyVals_def dest: map_of_SomeD)

lemma nonEmptyVals_update:
  "nonEmptyVals envVars \<Longrightarrow> v \<noteq> [] \<Longrightarrow> nonEmptyVals (AList.update k v envVars)"
  by (induction envVars) (auto simp: nonEmptyVals_def)

lemma nonEmptyVals_applyInputs:
  "nonEmptyVals envVars \<Longrightarrow> nonEmptyVals (applyInputs inputs envVars)"
  by (induction inputs envVars rule: applyInputs.induct) (simp_all add: nonEmptyVals_update)

lemma applyInputs_keeps:
  "map_of envVars k \<noteq> None \<Longrightarrow> map_of (applyInputs inputs envVars) k \<noteq> None"
  by (induction inputs envVars rule: applyInputs.induct) (simp_all add: update_conv')

text \<open>The value under a name after the loop: that of an input with this name, or the old one.\<close>

lemma applyInputs_value:
  "map_of (applyInputs inputs envVars) k = map_of envVars k \<or>
   (\<exists>(key, val) \<in> set inputs. val \<noteq> [] \<and> envKeyOf key = k \<and>
       map_of (applyInputs inputs envVars) k = Some val)"
proof (induction inputs envVars rule: applyInputs.induct)
  case (1 envVars)
  then show ?case by simp
next
  case (2 key val rest envVars)
  show ?case
  proof (cases "val = []")
    case True
    with 2 show ?thesis by auto
  next
    case False
    with 2 have "map_of (applyInputs rest (AList.update (envKeyOf key) val envVars)) k
                   = map_of (AList.update (envKeyOf key) val envVars) k \<or>
                 (\<exists>(key', val') \<in> set rest. val' \<noteq> [] \<and> envKeyOf key' = k \<and>
                    map_of (applyInputs rest (AList.update (envKeyOf key) val envVars)) k = Some val')"
      by simp
    then show ?thesis
      using False by (auto simp: update_conv')
  qed
qed

lemma applyInputs_user:
  "(key, val) \<in> set inputs \<Longrightarrow> val \<noteq> [] \<Longrightarrow>
   \<exists>(key', val') \<in> set inputs. val' \<noteq> [] \<and> envKeyOf key' = envKeyOf key \<and>
      map_of (applyInputs inputs envVars) (envKeyOf key) = Some val'"
proof (induction inputs envVars rule: applyInputs.induct)
  case (1 envVars)
  then show ?case by simp
next
  case (2 k v rest envVars)
  show ?case
  proof (cases "(key, val) \<in> set rest")
    case True
    then show ?thesis using 2 by (cases "v = []") auto
  next
    case False
    with 2 have kv: "k = key" "v = val" by auto
    from applyInputs_value [of rest "AList.update (envKeyOf key) val envVars" "envKeyOf key"]
    show ?thesis using kv 2(4) by (auto simp: update_conv')
  qed
qed


lemma generatePassword_Inr:
  assumes "1 \<le> L"
  shows "\<exists>tok r'. generatePassword L r = (Inr tok, r') \<and> tok \<noteq> []"
proof -
  have nn: "0 \<le> L" using assms by simp
  have "0 < length (ToUpper (take (nat L) (EncodeToString bs)))" if "length bs = nat (L div 2 + 1)" for bs
    using that assms by (simp add: ToUpper_def length_EncodeToString)
  then show ?thesis
    unfolding generatePassword_nonneg [OF nn] by fastforce
qed

lemma generateMissing_result:
  "\<exists>envVars' r'. generateMissing declared envVars r = (Inr envVars', r') \<and>
      (nonEmptyVals envVars \<longrightarrow> nonEmptyVals envVars') \<and>
      (\<forall>k v. map_of envVars k = Some v \<longrightarrow> map_of envVars' k = Some v) \<and>
      (\<forall>(key, input) \<in> set declared. Type input = ''password'' \<longrightarrow>
          map_of envVars' (envKeyOf key) \<noteq> None)"
proof (induction declared arbitrary: envVars r)
  case Nil
  then show ?case by simp
next
  case (Cons entry rest)
  obtain key input where entry: "entry = (key, input)" by (cases entry)
  show ?case
  proof (cases "map_of envVars (envKeyOf key) = None \<and> Type input = ''password''")
    case True
    obtain pwd r1 where gp: "generatePassword 12 r = (Inr pwd, r1)" and pwd: "pwd \<noteq> []"
      using generatePassword_Inr [of 12 r] by auto
    let ?e1 = "AList.update (envKeyOf key) pwd envVars"
    obtain e2 r2 where rec: "generateMissing rest ?e1 r1 = (Inr e2, r2)"
      and ne: "nonEmptyVals ?e1 \<longrightarrow> nonEmptyVals e2"
      and keep: "\<forall>k v. map_of ?e1 k = Some v \<longrightarrow> map_of e2 k = Some v"
      and decl: "\<forall>(key, input) \<in> set rest. Type input = ''password'' \<longrightarrow>
                   map_of e2 (envKeyOf key) \<noteq> None"
      using Cons.IH [of ?e1 r1] by blast
    have res: "generateMissing (entry # rest) envVars r = (Inr e2, r2)"
      using True gp rec by (simp add: entry)
    have a: "nonEmptyVals envVars \<longrightarrow> nonEmptyVals e2"
      using ne pwd by (simp add: nonEmptyVals_update)
    have b: "\<forall>k v. map_of envVars k = Some v \<longrightarrow> map_of e2 k = Some v"
    proof (intro allI impI)
      fix k v
      assume kv: "map_of envVars k = Some v"
      with True have "k \<noteq> envKeyOf key" by auto
      with kv have "map_of ?e1 k = Some v" by (simp add: update_conv')
      with keep show "map_of e2 k = Some v" by blast
    qed
    have "map_of e2 (envKeyOf key) \<noteq> None"
      using keep by (simp add: update_conv')
    with decl have c: "\<forall>(key, input) \<in> set (entry # rest). Type input = ''password'' \<longrightarrow>
                   map_of e2 (envKeyOf key) \<noteq> None"
      by (simp add: entry)
    from res a b c show ?thesis by blast
  next
    case False
    obtain e2 r2 where rec: "generateMissing rest envVars r = (Inr e2, r2)"
      and ne: "nonEmptyVals envVars \<longrightarrow> nonEmptyVals e2"
      and keep: "\<forall>k v. map_of envVars k = Some v \<longrightarrow> map_of e2 k = Some v"
      and decl: "\<forall>(key, input) \<in> set rest. Type input = ''password'' \<longrightarrow>
                   map_of e2 (envKeyOf key) \<noteq> None"
      using Cons.IH [of envVars r] by blast
    have res: "generateMissing (entry # rest) envVars r = (Inr e2, r2)"
      using False rec by (auto simp: entry)
    have "Type input = ''password'' \<longrightarrow> map_of e2 (envKeyOf key) \<noteq> None"
      using False keep by auto
    with decl have c: "\<forall>(key, input) \<in> set (entry # rest). Type input = ''password'' \<longrightarrow>
                   map_of e2 (envKeyOf key) \<noteq> None"
      by (simp add: entry)
    from res ne keep c show ?thesis by blast
  qed
qed

lemma prepareEnvVars_result:
  "\<exists>envVars r' envVars1.
      prepareEnvVars detail inputs r = (Inr envVars, r') \<and>
      nonEmptyVals envVars \<and>
      (\<forall>k v. map_of envVars1 k = Some v \<longrightarrow> map_of envVars k = Some v) \<and>
      (\<forall>(key, input) \<in> set (DeclaredInputs detail). Type input = ''password'' \<longrightarrow>
          map_of envVars (envKeyOf key) \<noteq> None) \<and>
      (\<exists>dbPwd adminPwd secretKey.
          envVars1 = applyInputs inputs
            (AList.update ''SECRET_KEY'' secretKey
              (AList.update ''ADMIN_PASSWORD'' adminPwd
                (AList.update ''DB_PASSWORD'' dbPwd []))) \<and>
          dbPwd \<noteq> [] \<and> adminPwd \<noteq> [] \<and> secretKey \<noteq> [])"
proof -
  obtain dbPwd r1 where g1: "generatePassword 16 r = (Inr dbPwd, r1)" and n1: "dbPwd \<noteq> []"
    using generatePassword_Inr [of 16 r] by auto
  obtain adminPwd r2 where g2: "generatePassword 12 r1 = (Inr adminPwd, r2)" and n2: "adminPwd \<noteq> []"
    using generatePassword_Inr [of 12 r1] by auto
  obtain secretKey r3 where g3: "generatePassword 48 r2 = (Inr secretKey, r3)" and n3: "secretKey \<noteq> []"
    using generatePassword_Inr [of 48 r2] by auto
  let ?e0 = "AList.update ''SECRET_KEY'' secretKey
              (AList.update ''ADMIN_PASSWORD'' adminPwd
                (AList.update ''DB_PASSWORD'' dbPwd []))"
  let ?e1 = "applyInputs inputs ?e0"
  have ne0: "nonEmptyVals ?e0"
    using n1 n2 n3 by (simp add: nonEmptyVals_update nonEmptyVals_def)
  have ne1: "nonEmptyVals ?e1"
    using ne0 by (rule nonEmptyVals_applyInputs)
  obtain e2 r4 where gm: "generateMissing (DeclaredInputs detail) ?e1 r3 = (Inr e2, r4)"
    and ne2: "nonEmptyVals e2"
    and keep: "\<forall>k v. map_of ?e1 k = Some v \<longrightarrow> map_of e2 k = Some v"
    and decl: "\<forall>(key, input) \<in> set (DeclaredInputs detail). Type input = ''password'' \<longrightarrow>
                 map_of e2 (envKeyOf key) \<noteq> None"
    using generateMissing_result [of "DeclaredInputs detail" ?e1 r3] ne1 by blast
  let ?e3 = "if map_of e2 ''DOMAIN'' = None then AList.update ''DOMAIN'' ''localhost'' e2 else e2"
  have res: "prepareEnvVars detail inputs r = (Inr ?e3, r4)"
    using g1 g2 g3 gm by (simp add: prepareEnvVars_def Let_def)
  have ne3: "nonEmptyVals ?e3"
    using ne2 by (simp add: nonEmptyVals_update)
  have keep3: "\<forall>k v. map_of e2 k = Some v \<longrightarrow> map_of ?e3 k = Some v"
    by (auto simp: update_conv')
  have k13: "\<forall>k v. map_of ?e1 k = Some v \<longrightarrow> map_of ?e3 k = Some v"
    using keep keep3 by blast
  have decl3: "\<forall>(key, input) \<in> set (DeclaredInputs detail). Type input = ''password'' \<longrightarrow>
                 map_of ?e3 (envKeyOf key) \<noteq> None"
    using decl keep3 by fastforce
  from res ne3 k13 decl3 n1 n2 n3 show ?thesis by blast
qed

text \<open>
  C5 (as amended). For every software definition, every user-input map (in whatever
  order the run ranges over it) and every state of the random source,
  \<open>prepareEnvVars\<close> returns an environment set that holds a non-empty value for
  every declared input of type password (under its translated name) and for
  \<open>DB_PASSWORD\<close>, \<open>ADMIN_PASSWORD\<close> and \<open>SECRET_KEY\<close>; under the translated
  name of every user input with a non-empty value stands the value of a non-empty
  user input with that translated name, never a generated default; and it is the
  user's own value whenever no non-empty user input with another value translates
  to the same name.
\<close>

theorem prepareEnvVars_guarantee:
  "\<exists>envVars r'.
      prepareEnvVars detail inputs r = (Inr envVars, r') \<and>
      (\<forall>(key, input) \<in> set (DeclaredInputs detail). Type input = ''password'' \<longrightarrow>
          (\<exists>v. map_of envVars (envKeyOf key) = Some v \<and> v \<noteq> [])) \<and>
      (\<forall>name \<in> {''DB_PASSWORD'', ''ADMIN_PASSWORD'', ''SECRET_KEY''}.
          \<exists>v. map_of envVars name = Some v \<and> v \<noteq> []) \<and>
      (\<forall>(key, val) \<in> set inputs. val \<noteq> [] \<longrightarrow>
          (\<exists>(key', val') \<in> set inputs. val' \<noteq> [] \<and> envKeyOf key' = envKeyOf key \<and>
              map_of envVars (envKeyOf key) = Some val')) \<and>
      (\<forall>(key, val) \<in> set inputs.
          val \<noteq> [] \<and>
          (\<forall>(key', val') \<in> set inputs. val' \<noteq> [] \<and> envKeyOf key' = envKeyOf key \<longrightarrow> val' = val)
          \<longrightarrow> map_of envVars (envKeyOf key) = Some val)"
proof -
  obtain envVars r' envVars1 dbPwd adminPwd secretKey where
    res: "prepareEnvVars detail inputs r = (Inr envVars, r')"
    and ne: "nonEmptyVals envVars"
    and keep: "\<forall>k v. map_of envVars1 k = Some v \<longrightarrow> map_of envVars k = Some v"
    and decl: "\<forall>(key, input) \<in> set (DeclaredInputs detail). Type input = ''password'' \<longrightarrow>
                 map_of envVars (envKeyOf key) \<noteq> None"
    and e1: "envVars1 = applyInputs inputs
            (AList.update ''SECRET_KEY'' secretKey
              (AList.update ''ADMIN_PASSWORD'' adminPwd
                (AList.update ''DB_PASSWORD'' dbPwd [])))"
    using prepareEnvVars_result [of detail inputs r] by blast
  have a: "\<forall>(key, input) \<in> set (DeclaredInputs detail). Type input = ''password'' \<longrightarrow>
          (\<exists>v. map_of envVars (envKeyOf key) = Some v \<and> v \<noteq> [])"
    using decl ne by (fastforce dest: map_of_nonEmptyVals)
  have base: "map_of envVars1 name \<noteq> None"
    if "name \<in> {''DB_PASSWORD'', ''ADMIN_PASSWORD'', ''SECRET_KEY''}" for name
    unfolding e1 using that by (intro applyInputs_keeps) (auto simp: update_conv')
  have b: "\<forall>name \<in> {''DB_PASSWORD'', ''ADMIN_PASSWORD'', ''SECRET_KEY''}.
          \<exists>v. map_of envVars name = Some v \<and> v \<noteq> []"
  proof
    fix name assume "name \<in> {''DB_PASSWORD'', ''ADMIN_PASSWORD'', ''SECRET_KEY''}"
    then obtain v where "map_of envVars1 name = Some v" using base by blast
    with keep have "map_of envVars name = Some v" by blast
    with ne show "\<exists>v. map_of envVars name = Some v \<and> v \<noteq> []"
      by (blast dest: map_of_nonEmptyVals)
  qed
  have c: "\<forall>(key, val) \<in> set inputs. val \<noteq> [] \<longrightarrow>
          (\<exists>(key', val') \<in> set inputs. val' \<noteq> [] \<and> envKeyOf key' = envKeyOf key \<and>
              map_of envVars (envKeyOf key) = Some val')"
  proof (clarify)
    fix key val assume "(key, val) \<in> set inputs" "val \<noteq> []"
    then obtain key' val' where "(key', val') \<in> set inputs" "val' \<noteq> []"
      "envKeyOf key' = envKeyOf key" "map_of envVars1 (envKeyOf key) = Some val'"
      unfolding e1 using applyInputs_user by blast
    with keep show "\<exists>(key', val') \<in> set inputs. val' \<noteq> [] \<and> envKeyOf key' = envKeyOf key \<and>
              map_of envVars (envKeyOf key) = Some val'"
      by blast
  qed
  have d: "\<forall>(key, val) \<in> set inputs.
          val \<noteq> [] \<and>
          (\<forall>(key', val') \<in> set inputs. val' \<noteq> [] \<and> envKeyOf key' = envKeyOf key \<longrightarrow> val' = val)
          \<longrightarrow> map_of envVars (envKeyOf key) = Some val"
    using c by fastforce
  from res a b c d show ?thesis by blast
qed

lemma envKeyOf_samples:
  "envKeyOf ''domain'' = ''DOMAIN''"
  "envKeyOf ''admin_password'' = ''ADMIN_PASSWORD''"
  "envKeyOf ''admin-password'' = ''ADMIN_PASSWORD''"
  "envKeyOf ''api-key'' = ''API_KEY''"
  by (simp_all add: envKeyOf_def keyMapping_def ToUpper_def ReplaceAll_def toUpperChar_def)

text \<open>
  The theorem at a definition with a text input and two password inputs, the user
  giving the domain and the admin password: both stand verbatim, and the undeclared
  API key and the database password are generated.
\<close>

theorem prepareEnvVars_guarantee_witness:
  "let envVars = projr (fst (prepareEnvVars sampleDetail sampleInputs zeroReader))
   in map_of envVars ''ADMIN_PASSWORD'' = Some ''hunter2'' \<and>
      map_of envVars ''DOMAIN'' = Some ''example.org'' \<and>
      map_of envVars ''API_KEY'' \<noteq> None \<and>
      map_of envVars ''DB_PASSWORD'' \<noteq> None"
proof -
  obtain envVars r' where
    res: "prepareEnvVars sampleDetail sampleInputs zeroReader = (Inr envVars, r')"
    and decl: "\<forall>(key, input) \<in> set (DeclaredInputs sampleDetail). Type input = ''password'' \<longrightarrow>
          (\<exists>v. map_of envVars (envKeyOf key) = Some v \<and> v \<noteq> [])"
    and base: "\<forall>name \<in> {''DB_PASSWORD'', ''ADMIN_PASSWORD'', ''SECRET_KEY''}.
          \<exists>v. map_of envVars name = Some v \<and> v \<noteq> []"
    and user: "\<forall>(key, val) \<in> set sampleInputs.
          val \<noteq> [] \<and>
          (\<forall>(key', val') \<in> set sampleInputs. val' \<noteq> [] \<and> envKeyOf key' = envKeyOf key \<longrightarrow> val' = val)
          \<longrightarrow> map_of envVars (envKeyOf key) = Some val"
    using prepareEnvVars_guarantee [of sampleDetail sampleInputs zeroReader] by blast
  have a: "map_of envVars ''ADMIN_PASSWORD'' = Some ''hunter2''"
    using user by (simp add: sampleInputs_def envKeyOf_samples)
  have b: "map_of envVars ''DOMAIN'' = Some ''example.org''"
    using user by (simp add: sampleInputs_def envKeyOf_samples)
  have c: "map_of envVars ''API_KEY'' \<noteq> None"
    using decl by (auto simp: sampleDetail_def bareDetail_def passwordInput_def envKeyOf_samples)
  have d: "map_of envVars ''DB_PASSWORD'' \<noteq> None"
    using base by auto
  from a b c d show ?thesis by (simp add: res)
qed

text \<open>
  C5 as stated fails when two input keys translate to the same name: with
  \<open>admin-password\<close> and \<open>admin_password\<close> both given, the one ranged over last
  takes \<open>ADMIN_PASSWORD\<close> and the other input's value is not in the set.
\<close>

theorem prepareEnvVars_collision_counterexample:
  "(''admin-password'', ''alpha'') \<in> set collidingInputs \<and>
   map_of (projr (fst (prepareEnvVars collidingDetail collidingInputs zeroReader)))
     (envKeyOf ''admin-password'') = Some ''beta'' \<and>
   (''admin_password'', ''beta'') \<in> set (rev collidingInputs) \<and>
   map_of (projr (fst (prepareEnvVars collidingDetail (rev collidingInputs) zeroReader)))
     (envKeyOf ''admin_password'') = Some ''alpha''"
  by code_simp

section \<open>Properties of the port resolver\<close>

text \<open>
  Within one run the result is the number of the first entry, in the order the run
  ranges over the table, one of whose patterns occurs in the text, and 0 when there is
  none.
\<close>

lemma findExposedPort_first_match:
  "findExposedPort order composeContent =
     (case find (matchesPort composeContent) order of
        None \<Rightarrow> 0
      | Some (port, portNum) \<Rightarrow> portNum)"
  by (induction order composeContent rule: findExposedPort.induct)
     (simp_all add: matchesPort_def)

text \<open>
  C2. The port returned depends on the order in which the run ranges over
  \<open>portMap\<close>: on a composition that maps both 80 and 8080, ranging in the written
  order returns 8080 and ranging in the opposite order returns 80.
\<close>

theorem findExposedPort_order_dependent:
  "set (rev portMap) = set portMap \<and>
   findExposedPort portMap twoPortsCompose = 8080 \<and>
   findExposedPort (rev portMap) twoPortsCompose = 80"
  by code_simp

section \<open>Properties of the deployment store\<close>

lemma indexOfID_None: "(indexOfID ident i ds = None) = (\<forall>d \<in> set ds. ID d \<noteq> ident)"
  by (induction ds arbitrary: i) auto

text \<open>
  C10. For every deployment list and every identifier that no record of the list
  has, \<open>updateDeploymentStatus\<close> and \<open>removeDeployment\<close> change nothing: the list
  is the same and no call is issued, so the state file is not written.
\<close>

theorem unknown_id_noop:
  assumes "\<forall>d \<in> set (deployments s). ID d \<noteq> ident"
  shows "updateDeploymentStatus env ident status s w = (s, w) \<and>
         removeDeployment env ident s w = (s, w)"
proof -
  from assms have "indexOfID ident 0 (deployments s) = None"
    by (simp add: indexOfID_None)
  then show ?thesis
    by (simp add: updateDeploymentStatus_def removeDeployment_def)
qed

text \<open>The theorem on the store with one record and an identifier it does not have.\<close>

theorem unknown_id_noop_witness:
  "updateDeploymentStatus sampleEnv ''no-such-id'' ''stopped'' sampleService freshWorld
     = (sampleService, freshWorld) \<and>
   removeDeployment sampleEnv ''no-such-id'' sampleService freshWorld
     = (sampleService, freshWorld)"
proof -
  have h: "\<forall>d \<in> set (deployments sampleService). ID d \<noteq> ''no-such-id''"
    by (simp add: sampleService_def sampleDeployment_def)
  show ?thesis
    using unknown_id_noop [OF h] by simp
qed

text \<open>
  C8. For every content of the state file, a fresh service has a deployment list,
  and the list is empty both when the file cannot be read and when its content does
  not decode.
\<close>

theorem load_missing_or_malformed:
  assumes "readFile env (stateFileOf env) = None \<or>
           (\<exists>data. readFile env (stateFileOf env) = Some data \<and> unmarshalFile env data = None)"
  shows "deployments (fst (NewService env w)) = []"
  using assms
  by (auto simp: NewService_def loadDeployments_def stateFileOf_def Let_def)

text \<open>The theorem on a missing state file and on one whose content does not decode.\<close>

theorem load_missing_or_malformed_witness:
  "readFile missingFileEnv (stateFileOf missingFileEnv) = None \<and>
   deployments (fst (NewService missingFileEnv freshWorld)) = [] \<and>
   readFile sampleEnv (stateFileOf sampleEnv) = Some ghostCompose \<and>
   unmarshalFile sampleEnv ghostCompose = None \<and>
   deployments (fst (NewService sampleEnv freshWorld)) = []"
proof -
  have a: "readFile missingFileEnv (stateFileOf missingFileEnv) = None"
    by (simp add: missingFileEnv_def)
  have b: "readFile sampleEnv (stateFileOf sampleEnv) = Some ghostCompose"
    by (simp add: sampleEnv_def)
  have c: "unmarshalFile sampleEnv ghostCompose = None"
    by (simp add: sampleEnv_def)
  show ?thesis
    using a b c
      load_missing_or_malformed [of missingFileEnv freshWorld]
      load_missing_or_malformed [of sampleEnv freshWorld]
    by simp
qed

text \<open>
  What the store contributes to a round trip through the state file: the whole list
  is handed to the encoder and written to the path that \<open>loadDeployments\<close> reads, and
  the decoded list is taken as it is. The encoder and the decoder themselves
  (\<open>encoding/json\<close>) are answers of the outside here.
\<close>

lemma save_then_load:
  assumes "marshalFile env \<lparr>Deployments = deployments s\<rparr> = Some data"
    and "readFile env' (filepath_Join [configPath s, ''deployments.json'']) = Some data"
    and "unmarshalFile env' data = Some \<lparr>Deployments = deployments s\<rparr>"
  shows "saveDeployments env s w =
           issue (WriteFile (filepath_Join [configPath s, ''deployments.json'']) data) w \<and>
         deployments (loadDeployments env' (s\<lparr>deployments := []\<rparr>)) = deployments s"
  using assms by (simp add: saveDeployments_def loadDeployments_def Let_def)

section \<open>Properties of the lifecycle orchestrator\<close>

text \<open>
  C6. For every tracked deployment, when \<open>docker compose down -v\<close> fails during
  destroy, the command returns the error, the store is the one before the command, and
  the only call issued is the engine command itself: no \<open>RemoveAll\<close> of the
  deployment directory and no write of the state file.
\<close>

theorem Destroy_engine_failure:
  assumes "getArg env \<noteq> []"
    and "findDeployment s (getArg env) = Some d"
    and "\<not> runOk env (composeArgv d [''down'', ''-v''])"
  shows "Destroy env s w =
           (Inl (EngineOperationFailed ''failed to destroy containers''), s,
            issue (Run (composeArgv d [''down'', ''-v'']) (Directory d) []) w)"
  using assms by (simp add: Destroy_def destroyDocker_def Let_def)

text \<open>The theorem on the store with one record, the engine failing.\<close>

theorem Destroy_engine_failure_witness:
  "getArg engineDownEnv \<noteq> [] \<and>
   findDeployment sampleService (getArg engineDownEnv) = Some sampleDeployment \<and>
   \<not> runOk engineDownEnv (composeArgv sampleDeployment [''down'', ''-v'']) \<and>
   fst (snd (Destroy engineDownEnv sampleService freshWorld)) = sampleService \<and>
   calls (snd (snd (Destroy engineDownEnv sampleService freshWorld))) =
     [Run [''docker'', ''compose'', ''-f'',
           ''/home/u/.opensourcer/deployments/ghost/docker-compose.yaml'', ''down'', ''-v'']
          ''/home/u/.opensourcer/deployments/ghost'' []]"
proof -
  have a: "getArg engineDownEnv \<noteq> []"
    by (simp add: getArg_def engineDownEnv_def sampleEnv_def)
  have b: "findDeployment sampleService (getArg engineDownEnv) = Some sampleDeployment"
    by (simp add: findDeployment_def getArg_def engineDownEnv_def sampleEnv_def
        sampleService_def sampleDeployment_def)
  have c: "\<not> runOk engineDownEnv (composeArgv sampleDeployment [''down'', ''-v''])"
    by (simp add: engineDownEnv_def)
  have d: "composeArgv sampleDeployment [''down'', ''-v''] =
           [''docker'', ''compose'', ''-f'',
            ''/home/u/.opensourcer/deployments/ghost/docker-compose.yaml'', ''down'', ''-v'']"
    by (simp add: composeArgv_def sampleDeployment_def filepath_Join_def)
  have dir: "Directory sampleDeployment = ''/home/u/.opensourcer/deployments/ghost''"
    by (simp add: sampleDeployment_def)
  have e: "Destroy engineDownEnv sampleService freshWorld =
           (Inl (EngineOperationFailed ''failed to destroy containers''), sampleService,
            issue (Run (composeArgv sampleDeployment [''down'', ''-v''])
                     (Directory sampleDeployment) []) freshWorld)"
    by (rule Destroy_engine_failure [OF a b c])
  have f: "calls (snd (snd (Destroy engineDownEnv sampleService freshWorld))) =
     [Run [''docker'', ''compose'', ''-f'',
           ''/home/u/.opensourcer/deployments/ghost/docker-compose.yaml'', ''down'', ''-v'']
          ''/home/u/.opensourcer/deployments/ghost'' []]"
    unfolding e d dir by (simp add: issue_def freshWorld_def)
  have g: "fst (snd (Destroy engineDownEnv sampleService freshWorld)) = sampleService"
    unfolding e by simp
  from a b c f g show ?thesis by blast
qed

text \<open>
  C7. For every deploy request, when the probe \<open>docker info\<close> fails,
  \<open>deployLocal\<close> returns \<open>EngineUnavailable\<close>, the store is the one before the
  command, and the only call issued is the probe: no directory is created and no file
  is written.
\<close>

theorem deployLocal_probe_failure:
  assumes "\<not> runOk env [''docker'', ''info'']"
  shows "deployLocal env software detail inputs s w =
           (Inl EngineUnavailable, s, issue (Run [''docker'', ''info''] [] []) w)"
  using assms by (simp add: deployLocal_def checkDockerAvailable_def Let_def)

text \<open>The theorem on a deploy of \<open>ghost\<close> with the engine down.\<close>

theorem deployLocal_probe_failure_witness:
  "\<not> runOk engineDownEnv [''docker'', ''info''] \<and>
   deployLocal engineDownEnv ''ghost'' sampleDetail [] emptyService freshWorld =
     (Inl EngineUnavailable, emptyService,
      freshWorld\<lparr>calls := [Run [''docker'', ''info''] [] []]\<rparr>)"
proof -
  have a: "\<not> runOk engineDownEnv [''docker'', ''info'']"
    by (simp add: engineDownEnv_def)
  show ?thesis
    using a deployLocal_probe_failure [OF a, of "''ghost''" sampleDetail "[]" emptyService freshWorld]
    by (simp add: issue_def freshWorld_def)
qed

section \<open>One record per slug\<close>

lemma deployLocal_store:
  assumes "deployLocal env software detail inputs s w = (res, s', w')"
  shows "(s' = s \<and> res \<noteq> Inr Deployed) \<or>
         (res = Inr Deployed \<and>
          s' = s\<lparr>deployments := deployments s @ [last (deployments s')]\<rparr> \<and>
          Software (last (deployments s')) = software)"
  using assms
  by (auto simp: deployLocal_def addDeployment_def Let_def
      split: if_splits option.splits prod.splits sum.splits)

lemma Deploy_store:
  assumes "Deploy env s w = (res, s', w')"
  shows "s' = s \<or>
         (s' = s\<lparr>deployments := deployments s @ [last (deployments s')]\<rparr> \<and>
          Software (last (deployments s')) = getArg env)"
proof (cases "getArg env = []")
  case True
  with assms show ?thesis by (simp add: Deploy_def)
next
  case False
  show ?thesis
  proof (cases "getCatalogDetail env s (getArg env)")
    case (Inl e)
    with assms False show ?thesis by (simp add: Deploy_def)
  next
    case (Inr detail)
    with assms False deployLocal_store [of env "getArg env" detail _ s w res s' w']
    show ?thesis
      by (auto simp: Deploy_def Let_def split: if_splits)
  qed
qed

lemma indexOfID_bound: "indexOfID ident i ds = Some j \<Longrightarrow> i \<le> j \<and> j < i + length ds"
  by (induction ds arbitrary: i) (fastforce split: if_splits)+

lemma update_slugs:
  assumes "updateDeploymentStatus env ident status s w = (s', w')"
  shows "map Software (deployments s') = map Software (deployments s)"
proof (cases "indexOfID ident 0 (deployments s)")
  case None
  with assms show ?thesis by (simp add: updateDeploymentStatus_def)
next
  case (Some j)
  then have j: "j < length (deployments s)"
    using indexOfID_bound [of ident 0 "deployments s" j] by simp
  from assms Some have
    "deployments s' =
       (deployments s)[j := (deployments s ! j)\<lparr>Status := status, UpdatedAt := now env 0\<rparr>]"
    by (auto simp: updateDeploymentStatus_def Let_def)
  then show ?thesis
    using j by (simp add: map_update list_update_same_conv)
qed

lemma distinct_without:
  assumes "distinct ys"
  shows "distinct (take i ys @ drop (Suc i) ys)"
  using assms set_take_disj_set_drop_if_distinct [of ys i "Suc i"]
  by simp

lemma remove_slugs:
  assumes "removeDeployment env ident s w = (s', w')"
    and "distinct (map Software (deployments s))"
  shows "distinct (map Software (deployments s'))"
proof (cases "indexOfID ident 0 (deployments s)")
  case None
  with assms show ?thesis by (simp add: removeDeployment_def)
next
  case (Some j)
  with assms(1) have
    "deployments s' = take j (deployments s) @ drop (Suc j) (deployments s)"
    by (auto simp: removeDeployment_def Let_def)
  then show ?thesis
    using distinct_without [OF assms(2), of j] by (simp add: take_map drop_map)
qed

lemma findIn_None: "(findIn software ds = None) = (software \<notin> set (map Software ds))"
  by (induction ds) auto

lemma stopDocker_slugs:
  assumes "stopDocker env d s w = (res, s', w')"
  shows "map Software (deployments s') = map Software (deployments s)"
proof (cases "runOk env (composeArgv d [''stop''])")
  case False
  with assms have "s' = s" by (simp add: stopDocker_def Let_def)
  then show ?thesis by simp
next
  case True
  let ?w1 = "issue (Run (composeArgv d [''stop'']) (Directory d) []) w"
  obtain s2 w2 where u: "updateDeploymentStatus env (ID d) ''stopped'' s ?w1 = (s2, w2)"
    by (cases "updateDeploymentStatus env (ID d) ''stopped'' s ?w1")
  with assms True have "s' = s2" by (simp add: stopDocker_def Let_def)
  with update_slugs [OF u] show ?thesis by simp
qed

lemma startDocker_slugs:
  assumes "startDocker env d s w = (res, s', w')"
  shows "map Software (deployments s') = map Software (deployments s)"
proof (cases "runOk env (composeArgv d [''start''])")
  case False
  with assms have "s' = s" by (simp add: startDocker_def Let_def)
  then show ?thesis by simp
next
  case True
  let ?w1 = "issue (Run (composeArgv d [''start'']) (Directory d) []) w"
  obtain s2 w2 where u: "updateDeploymentStatus env (ID d) ''running'' s ?w1 = (s2, w2)"
    by (cases "updateDeploymentStatus env (ID d) ''running'' s ?w1")
  with assms True have "s' = s2" by (simp add: startDocker_def Let_def)
  with update_slugs [OF u] show ?thesis by simp
qed

lemma Stop_slugs:
  assumes "Stop env s w = (res, s', w')"
  shows "map Software (deployments s') = map Software (deployments s)"
proof (cases "getArg env = []")
  case True
  with assms show ?thesis by (simp add: Stop_def)
next
  case False
  show ?thesis
  proof (cases "findDeployment s (getArg env)")
    case None
    with assms False show ?thesis by (simp add: Stop_def)
  next
    case (Some d)
    with assms False have "stopDocker env d s w = (res, s', w')" by (simp add: Stop_def)
    then show ?thesis by (rule stopDocker_slugs)
  qed
qed

lemma Start_slugs:
  assumes "Start env s w = (res, s', w')"
  shows "map Software (deployments s') = map Software (deployments s)"
proof (cases "getArg env = []")
  case True
  with assms show ?thesis by (simp add: Start_def)
next
  case False
  show ?thesis
  proof (cases "findDeployment s (getArg env)")
    case None
    with assms False show ?thesis by (simp add: Start_def)
  next
    case (Some d)
    with assms False have "startDocker env d s w = (res, s', w')" by (simp add: Start_def)
    then show ?thesis by (rule startDocker_slugs)
  qed
qed

lemma Logs_store:
  assumes "Logs env s w = (res, s', w')"
  shows "s' = s"
proof (cases "getArg env = []")
  case True
  with assms show ?thesis by (simp add: Logs_def)
next
  case False
  show ?thesis
  proof (cases "findDeployment s (getArg env)")
    case None
    with assms False show ?thesis by (simp add: Logs_def)
  next
    case (Some d)
    with assms False show ?thesis
      by (cases "runOk env (composeArgv d [''logs'', ''--tail'', ''100''])")
         (simp_all add: Logs_def getDockerLogs_def Let_def)
  qed
qed

lemma Destroy_distinct:
  assumes "Destroy env s w = (res, s', w')"
    and "distinct (map Software (deployments s))"
  shows "distinct (map Software (deployments s'))"
proof (cases "getArg env = []")
  case True
  with assms show ?thesis by (simp add: Destroy_def)
next
  case False
  show ?thesis
  proof (cases "findDeployment s (getArg env)")
    case None
    with assms False show ?thesis by (simp add: Destroy_def)
  next
    case (Some d)
    show ?thesis
    proof (cases "runOk env (composeArgv d [''down'', ''-v''])")
      case False
      with assms \<open>getArg env \<noteq> []\<close> Some show ?thesis
        by (simp add: Destroy_def destroyDocker_def Let_def)
    next
      case True
      let ?w1 = "issue (RemoveAll (Directory d))
                   (issue (Run (composeArgv d [''down'', ''-v'']) (Directory d) []) w)"
      obtain s2 w2 where r: "removeDeployment env (ID d) s ?w1 = (s2, w2)"
        by (cases "removeDeployment env (ID d) s ?w1")
      with assms(1) \<open>getArg env \<noteq> []\<close> Some True have "s' = s2"
        by (simp add: Destroy_def destroyDocker_def Let_def)
      with remove_slugs [OF r assms(2)] show ?thesis by simp
    qed
  qed
qed

lemma Deploy_distinct:
  assumes "Deploy env s w = (res, s', w')"
    and "distinct (map Software (deployments s))"
    and "findDeployment s (getArg env) = None"
  shows "distinct (map Software (deployments s'))"
proof -
  from assms(3) have fresh: "getArg env \<notin> set (map Software (deployments s))"
    by (simp add: findDeployment_def findIn_None)
  from Deploy_store [OF assms(1)] show ?thesis
  proof
    assume "s' = s"
    with assms(2) show ?thesis by simp
  next
    assume a: "s' = s\<lparr>deployments := deployments s @ [last (deployments s')]\<rparr> \<and>
          Software (last (deployments s')) = getArg env"
    then have "deployments s' =
                 deployments (s\<lparr>deployments := deployments s @ [last (deployments s')]\<rparr>)"
      by simp
    then have "deployments s' = deployments s @ [last (deployments s')]"
      by simp
    then have "map Software (deployments s') =
                 map Software (deployments s @ [last (deployments s')])"
      by simp
    then have "map Software (deployments s') = map Software (deployments s) @ [getArg env]"
      using a by simp
    with assms(2) fresh show ?thesis by simp
  qed
qed

lemma exec_keeps_distinct:
  assumes "exec cmd env s w = (res, s', w')"
    and "distinct (map Software (deployments s))"
    and "cmd = DeployCmd \<longrightarrow> findDeployment s (getArg env) = None"
  shows "distinct (map Software (deployments s'))"
proof (cases cmd)
  case DeployCmd
  with assms show ?thesis using Deploy_distinct [of env s w res s' w'] by simp
next
  case StopCmd
  with assms show ?thesis using Stop_slugs [of env s w res s' w'] by simp
next
  case StartCmd
  with assms show ?thesis using Start_slugs [of env s w res s' w'] by simp
next
  case DestroyCmd
  with assms show ?thesis using Destroy_distinct [of env s w res s' w'] by simp
next
  case LogsCmd
  with assms show ?thesis using Logs_store [of env s w res s' w'] by simp
qed

lemma run_keeps_distinct:
  "noRedeploy cmds s w \<Longrightarrow> distinct (map Software (deployments s)) \<Longrightarrow>
   distinct (map Software (deployments (fst (run cmds s w))))"
proof (induction cmds arbitrary: s w)
  case Nil
  then show ?case by simp
next
  case (Cons step rest)
  obtain cmd env where step: "step = (cmd, env)" by (cases step)
  obtain res s' w' where ex: "exec cmd env s w = (res, s', w')" by (cases "exec cmd env s w")
  from Cons.prems step ex have guard: "cmd = DeployCmd \<longrightarrow> findDeployment s (getArg env) = None"
    and rest: "noRedeploy rest s' w'" by simp_all
  have "distinct (map Software (deployments s'))"
    using exec_keeps_distinct [OF ex Cons.prems(2) guard] .
  from Cons.IH [OF rest this] show ?case by (simp add: step ex)
qed

lemma noRedeploy_take: "noRedeploy cmds s w \<Longrightarrow> noRedeploy (take n cmds) s w"
proof (induction cmds arbitrary: n s w)
  case Nil
  then show ?case by simp
next
  case (Cons step rest)
  show ?case
  proof (cases n)
    case 0
    then show ?thesis by simp
  next
    case (Suc m)
    obtain cmd env where step: "step = (cmd, env)" by (cases step)
    with Cons Suc show ?thesis by (auto split: prod.splits)
  qed
qed


lemma deployLocal_count:
  assumes "fst (deployLocal env software detail inputs s w) = Inr Deployed"
  shows "slugCount software (fst (snd (deployLocal env software detail inputs s w))) =
           Suc (slugCount software s)"
proof -
  obtain res s' w' where d: "deployLocal env software detail inputs s w = (res, s', w')"
    by (cases "deployLocal env software detail inputs s w")
  with assms have res: "res = Inr Deployed" by simp
  from deployLocal_store [OF d] res
  have a: "s' = s\<lparr>deployments := deployments s @ [last (deployments s')]\<rparr>"
    and b: "Software (last (deployments s')) = software"
    by auto
  from a have "deployments s' =
                 deployments (s\<lparr>deployments := deployments s @ [last (deployments s')]\<rparr>)"
    by simp
  then have "deployments s' = deployments s @ [last (deployments s')]" by simp
  then have "filter (\<lambda>d. Software d = software) (deployments s') =
             filter (\<lambda>d. Software d = software) (deployments s @ [last (deployments s')])"
    by simp
  then show ?thesis
    using b by (simp add: slugCount_def d)
qed

text \<open>
  C1 (as amended). For every sequence of lifecycle commands that starts from an empty
  store and in which no deploy is issued for a slug that has a record at that moment,
  the store holds at most one record per slug after every command of the sequence.
  Deploy itself does not look for an existing record: every deploy that succeeds adds
  one record for its slug to those the store already holds for it.
\<close>

theorem one_record_per_slug:
  "(deployments s = [] \<and> noRedeploy cmds s w \<longrightarrow>
      (\<forall>n. distinct (map Software (deployments (fst (run (take n cmds) s w)))))) \<and>
   (fst (deployLocal env software detail inputs s1 w1) = Inr Deployed \<longrightarrow>
      slugCount software (fst (snd (deployLocal env software detail inputs s1 w1))) =
        Suc (slugCount software s1))"
proof (intro conjI impI allI)
  fix n
  assume a: "deployments s = [] \<and> noRedeploy cmds s w"
  then have "noRedeploy (take n cmds) s w" by (simp add: noRedeploy_take)
  moreover from a have "distinct (map Software (deployments s))" by simp
  ultimately show "distinct (map Software (deployments (fst (run (take n cmds) s w))))"
    by (rule run_keeps_distinct)
next
  assume "fst (deployLocal env software detail inputs s1 w1) = Inr Deployed"
  then show "slugCount software (fst (snd (deployLocal env software detail inputs s1 w1))) =
        Suc (slugCount software s1)"
    by (rule deployLocal_count)
qed

lemma deployLocal_success:
  fixes env software s
  defines "deployDir \<equiv> filepath_Join [configPath s, ''deployments'', software]"
  defines "catalogDir \<equiv> filepath_Join [catalogPath s, software]"
  defines "composePath \<equiv> filepath_Join [deployDir, ''docker-compose.yaml'']"
  assumes probe: "runOk env [''docker'', ''info'']"
    and mk: "mkdirAllOk env deployDir"
    and cp: "fst (copyDir env (readDir env catalogDir) catalogDir deployDir
                   (issue (MkdirAll deployDir) (issue (Run [''docker'', ''info''] [] []) w)))"
    and rd: "readFile env composePath = Some composeContent"
    and wr: "writeFileOk env (filepath_Join [deployDir, ''.env''])"
    and up: "runOk env [''docker'', ''compose'', ''-f'', composePath, ''up'', ''-d'']"
  shows "fst (deployLocal env software detail inputs s w) = Inr Deployed \<and>
         deployments (fst (snd (deployLocal env software detail inputs s w))) =
           deployments s @
             [\<lparr>ID = newUUID env, Software = software, Target = ''local'',
               Status = ''running'', Directory = deployDir,
               Port = findExposedPort (portOrder env) composeContent,
               Inputs = inputs, CreatedAt = now env 0, UpdatedAt = now env 1\<rparr>]"
proof -
  let ?w2 = "issue (MkdirAll deployDir) (issue (Run [''docker'', ''info''] [] []) w)"
  obtain w3 where c3: "copyDir env (readDir env catalogDir) catalogDir deployDir ?w2 = (True, w3)"
    using cp by (cases "copyDir env (readDir env catalogDir) catalogDir deployDir ?w2") auto
  obtain envVars r' where pe: "prepareEnvVars detail inputs (rng w3) = (Inr envVars, r')"
    using prepareEnvVars_result [of detail inputs "rng w3"] by blast
  show ?thesis
    using probe mk rd wr up c3 pe
    unfolding deployDir_def catalogDir_def composePath_def
    by (simp add: deployLocal_def checkDockerAvailable_def addDeployment_def Let_def)
qed

lemma Deploy_sampleEnv:
  assumes "env = sampleEnv \<or> env = redeployEnv"
  shows "fst (Deploy env s w) = Inr Deployed \<and>
         map Software (deployments (fst (snd (Deploy env s w)))) =
           map Software (deployments s) @ [''ghost'']"
proof -
  have arg: "getArg env = ''ghost''"
    using assms by (auto simp: getArg_def sampleEnv_def redeployEnv_def)
  have facts: "runOk env = (\<lambda>argv. True)" "mkdirAllOk env = (\<lambda>path. True)"
    "writeFileOk env = (\<lambda>path. True)" "readFile env = (\<lambda>path. Some ghostCompose)"
    "readDir env = (\<lambda>path. Some [FileEntry ''app.json'', FileEntry ''docker-compose.yaml''])"
    "unmarshalDetail env = (\<lambda>data. Some sampleDetail)" "param env = (\<lambda>key. [])"
    using assms by (auto simp: sampleEnv_def redeployEnv_def)
  have dep: "Deploy env s w = deployLocal env ''ghost'' sampleDetail [] s w"
    by (simp add: Deploy_def arg getCatalogDetail_def facts sampleDetail_def bareDetail_def Let_def)
  have "fst (deployLocal env ''ghost'' sampleDetail [] s w) = Inr Deployed \<and>
        deployments (fst (snd (deployLocal env ''ghost'' sampleDetail [] s w))) =
          deployments s @
            [\<lparr>ID = newUUID env, Software = ''ghost'', Target = ''local'',
              Status = ''running'',
              Directory = filepath_Join [configPath s, ''deployments'', ''ghost''],
              Port = findExposedPort (portOrder env) ghostCompose,
              Inputs = [], CreatedAt = now env 0, UpdatedAt = now env 1\<rparr>]"
    by (rule deployLocal_success) (simp_all add: facts Let_def)
  then show ?thesis by (simp add: dep)
qed

lemma sampleSession_guarded: "noRedeploy sampleSession emptyService freshWorld"
  by (simp add: sampleSession_def findDeployment_def emptyService_def split: prod.splits)

text \<open>
  The theorem on the session deploy, stop, start, destroy from the empty store, and on
  a deploy of \<open>ghost\<close> into the store that already has a record of it.
\<close>

theorem one_record_per_slug_witness:
  "deployments emptyService = [] \<and>
   noRedeploy sampleSession emptyService freshWorld \<and>
   distinct (map Software (deployments (fst (run (take 3 sampleSession) emptyService freshWorld)))) \<and>
   fst (deployLocal redeployEnv ''ghost'' sampleDetail [] sampleService freshWorld) = Inr Deployed \<and>
   slugCount ''ghost''
     (fst (snd (deployLocal redeployEnv ''ghost'' sampleDetail [] sampleService freshWorld))) = 2"
proof -
  have a: "deployments emptyService = []" by (simp add: emptyService_def)
  have c: "slugCount ''ghost'' sampleService = 1"
    by (simp add: slugCount_def sampleService_def sampleDeployment_def)
  have d: "fst (deployLocal redeployEnv ''ghost'' sampleDetail [] sampleService freshWorld) = Inr Deployed"
    using deployLocal_success [of redeployEnv sampleService "''ghost''" freshWorld ghostCompose sampleDetail "[]"]
    by (simp add: redeployEnv_def sampleEnv_def)
  show ?thesis
    using a c d sampleSession_guarded
      one_record_per_slug [of emptyService sampleSession freshWorld redeployEnv "''ghost''"
        sampleDetail "[]" sampleService freshWorld]
    by simp
qed

text \<open>
  C1 as stated fails on two deploys of the same slug from the empty store: both
  succeed, the second while the slug has a record, and the store then holds two
  records of \<open>ghost\<close>.
\<close>

theorem redeploy_counterexample:
  "fst (Deploy sampleEnv emptyService freshWorld) = Inr Deployed \<and>
   findDeployment (fst (snd (Deploy sampleEnv emptyService freshWorld))) ''ghost'' \<noteq> None \<and>
   fst (Deploy redeployEnv (fst (snd (Deploy sampleEnv emptyService freshWorld)))
                           (snd (snd (Deploy sampleEnv emptyService freshWorld)))) = Inr Deployed \<and>
   map Software (deployments (fst (run [(DeployCmd, sampleEnv), (DeployCmd, redeployEnv)]
                                      emptyService freshWorld))) = [''ghost'', ''ghost'']"
proof -
  let ?D1 = "Deploy sampleEnv emptyService freshWorld"
  let ?D2 = "Deploy redeployEnv (fst (snd ?D1)) (snd (snd ?D1))"
  have d1: "fst ?D1 = Inr Deployed"
    and s1: "map Software (deployments (fst (snd ?D1))) = [''ghost'']"
    using Deploy_sampleEnv [of sampleEnv emptyService freshWorld]
    by (simp_all add: emptyService_def)
  have d2: "fst ?D2 = Inr Deployed"
    and s2: "map Software (deployments (fst (snd ?D2))) = [''ghost'', ''ghost'']"
    using Deploy_sampleEnv [of redeployEnv "fst (snd ?D1)" "snd (snd ?D1)"] s1
    by simp_all
  have f: "findDeployment (fst (snd ?D1)) ''ghost'' \<noteq> None"
    using s1 by (simp add: findDeployment_def findIn_None)
  have r: "map Software (deployments (fst (run [(DeployCmd, sampleEnv), (DeployCmd, redeployEnv)]
                                              emptyService freshWorld))) =
           map Software (deployments (fst (snd ?D2)))"
    by (simp add: split_beta)
  from d1 f d2 show ?thesis
    unfolding r s2 by blast
qed

end
